theory Spec2Isabelle
  imports Main
begin

section \<open>Collaborators of the dropdown\<close>

text \<open>
  A \<open>SearchResult\<close> is produced by the host. The dropdown reads three things of it:
  the raw payload \<open>data\<close>, the identifier \<open>strategy.props.id\<close> and the markup
  returned by \<open>render()\<close>. Raw payloads are strings here.
\<close>

record searchResult =
  data :: string
  strategyId :: "string option"
  rendered :: string

text \<open>The cursor position handed to \<open>render\<close>; \<open>left\<close> and \<open>right\<close> may be absent.\<close>

record cursorOffset =
  co_left :: "int option"
  co_right :: "int option"
  co_top :: int
  co_lineHeight :: int

text \<open>
  Events of the emitter. \<open>select\<close> and \<open>selected\<close> carry the search result as
  their detail. The listeners are a parameter \<open>L\<close> of every operation that emits a
  cancelable event: \<open>L ev\<close> says that some listener called \<open>preventDefault\<close> on
  \<open>ev\<close>.
\<close>

datatype event =
  Render | Rendered | Show | Shown | Hide | Hidden
  | Select searchResult | Selected searchResult

text \<open>What a call of a method may throw.\<close>

datatype jsError = TypeError string

section \<open>Decimal text of a number\<close>

definition digit :: "nat \<Rightarrow> char" where
  "digit n = ''0123456789'' ! n"

text \<open>The digits of \<open>n\<close> are put in front of \<open>acc\<close>, the last digit first.\<close>

fun decimal :: "nat \<Rightarrow> string \<Rightarrow> string" where
  "decimal n acc =
     (if n div 10 = 0 then digit n # acc
      else decimal (n div 10) (digit (n mod 10) # acc))"

definition toString :: "int \<Rightarrow> string" where
  "toString i = (if 0 \<le> i then decimal (nat i) [] else CHR ''-'' # decimal (nat (- i)) [])"

definition px :: "int \<Rightarrow> string" where
  "px i = toString i @ ''px''"

section \<open>DropdownItem\<close>

text \<open>
  The dropdown imports its item class from the module \<open>./dropdown_item\<close>, which is
  not among the sources. The sources hold \<open>src/dropdown-item.js\<close>, an item class
  with the same constructor, element, flag and \<open>appended\<close>; these are taken from
  it. Three members that the dropdown relies on are not what that file has: the
  dropdown calls \<open>destroy()\<close> on its items, it stores \<open>rotate\<close> for \<open>next\<close> and
  \<open>prev\<close>, and it leaves the deactivation of the active item to \<open>activate()\<close>.
  These three are modelled from the specification, under \<open>destroy\<close>,
  \<open>next_item\<close>, \<open>prev_item\<close> and \<open>activate_item\<close> below.
\<close>

definition INACTIVE_CLASS_NAME :: string where
  "INACTIVE_CLASS_NAME = ''textcomplete-item''"

definition ACTIVE_CLASS_NAME :: string where
  "ACTIVE_CLASS_NAME = INACTIVE_CLASS_NAME @ '' active''"

text \<open>The \<open>li\<close> element an item creates on first use of its \<open>el\<close> getter.\<close>

record liElement =
  li_id :: nat
  className :: string
  innerHTML :: string

text \<open>
  An item. \<open>item_id\<close> is the number that \<open>uniqueId\<close> put after the prefix
  \<open>dropdown-item-\<close>; \<open>item_el\<close> is the cache \<open>_el\<close>; \<open>index\<close> is undefined
  (\<open>None\<close>) until \<open>appended\<close> has run. The field \<open>siblings\<close> is not stored: it
  is the very array \<open>dropdown.items\<close> (the same object), so the functions that read
  it take the dropdown's item list as an argument, and an item reference is its
  position in that list.
\<close>

record dropdownItem =
  searchResult :: searchResult
  item_id :: nat
  active :: bool
  item_el :: "liElement option"
  index :: "int option"

text \<open>\<open>uniqueId\<close> increments a global counter and returns the new value.\<close>

definition uniqueId :: "nat \<Rightarrow> nat \<times> nat" where
  "uniqueId c = (Suc c, Suc c)"

definition DropdownItem :: "searchResult \<Rightarrow> nat \<Rightarrow> dropdownItem \<times> nat" where
  "DropdownItem sr c =
     (case uniqueId c of (i, c') \<Rightarrow>
        (\<lparr>searchResult = sr, item_id = i, active = False, item_el = None, index = None\<rparr>, c'))"

text \<open>The getter \<open>el\<close>: builds the element once, then returns the cached one.\<close>

definition el :: "dropdownItem \<Rightarrow> dropdownItem" where
  "el i =
     (case item_el i of
        Some li \<Rightarrow> i
      | None \<Rightarrow>
          i\<lparr>item_el := Some \<lparr>li_id = item_id i,
                 className = (if active i then ACTIVE_CLASS_NAME else INACTIVE_CLASS_NAME),
                 innerHTML = rendered (searchResult i)\<rparr>\<rparr>)"

definition set_className :: "string \<Rightarrow> dropdownItem \<Rightarrow> dropdownItem" where
  "set_className c i =
     (let i' = el i in i'\<lparr>item_el := map_option (\<lambda>li. li\<lparr>className := c\<rparr>) (item_el i')\<rparr>)"

definition finalize :: "dropdownItem \<Rightarrow> dropdownItem" where
  "finalize i = i\<lparr>item_el := None\<rparr>"

definition activate :: "dropdownItem \<Rightarrow> dropdownItem" where
  "activate i =
     (if \<not> active i then set_className ACTIVE_CLASS_NAME (i\<lparr>active := True\<rparr>) else i)"

definition deactivate :: "dropdownItem \<Rightarrow> dropdownItem" where
  "deactivate i =
     (if active i then set_className INACTIVE_CLASS_NAME (i\<lparr>active := False\<rparr>) else i)"

text \<open>
  \<open>appended\<close> runs right after the item was pushed, so \<open>siblings\<close> already holds
  it: \<open>index = siblings.length - 1\<close>, and the item at index 0 activates itself. It
  is then the only item of the collection, so no other item is there to deactivate.
\<close>

definition appended :: "dropdownItem list \<Rightarrow> dropdownItem \<Rightarrow> dropdownItem" where
  "appended siblings i =
     (let i' = i\<lparr>index := Some (int (length siblings) - 1)\<rparr>
      in if index i' = Some 0 then activate i' else i')"




text \<open>The position of the first item whose flag is set: the one \<open>getActiveItem\<close> finds.\<close>

fun first_active :: "dropdownItem list \<Rightarrow> nat option" where
  "first_active [] = None"
| "first_active (x # xs) = (if active x then Some 0 else map_option Suc (first_active xs))"

text \<open>
  Modelled from the spec: the method \<open>activate()\<close> of the item class in
  \<open>./dropdown_item\<close>, which is missing from the sources, called on the item at
  position \<open>k\<close> of the collection. The spec: "activate(): no-op if already active;
  otherwise sets active = true and requests a visual class/style update", and "at most
  one Item active at a time; activating one deactivates all others implicitly (only one
  flag flips true, enforced by activation always first testing the current active
  item)", "always deactivate-before-activate". So the current active item, if there is
  one, is deactivated, and then the flag and the class of item \<open>k\<close> are set.
\<close>

definition activate_item :: "nat \<Rightarrow> dropdownItem list \<Rightarrow> dropdownItem list" where
  "activate_item k collection =
     (if active (collection ! k) then collection
      else
        (let others = (case first_active collection of
                         None \<Rightarrow> collection
                       | Some a \<Rightarrow> collection[a := deactivate (collection ! a)])
         in others[k := activate (others ! k)]))"

text \<open>
  Modelled from the spec: the method \<open>destroy()\<close> of the item class in
  \<open>./dropdown_item\<close>, which is missing from the sources. The spec: "destroy():
  releases any cached visual handle; item must not be reused afterward". That is what
  \<open>finalize\<close> of \<open>src/dropdown-item.js\<close> does, whose comment names
  \<open>Dropdown#clear\<close> as its caller. A call of a method of an item is a place where
  the program could throw, so the result is a sum; this method returns for every item.
\<close>

definition destroy :: "dropdownItem \<Rightarrow> jsError + dropdownItem" where
  "destroy i = Inr (finalize i)"

section \<open>Dropdown\<close>

datatype edgeSource = EdgeString string | EdgeFunction "string list \<Rightarrow> string"

datatype edgeType = Header | Footer

text \<open>
  The children of the \<open>ul\<close>: a header or footer \<open>li\<close> with its markup, or the
  \<open>li\<close> of the item with the given id (the element itself lives in the item).
\<close>

datatype child = EdgeLi edgeType string | ItemLi nat

text \<open>
  The dropdown with its element flattened into the \<open>el_\<close> fields. \<open>maxCount\<close> is
  a number of the source; here it is an integer, of either sign. \<open>emitted\<close> is
  the sequence of events emitted so far. Two fields belong to the environment:
  \<open>idCounter\<close> is the counter of \<open>uniqueId\<close>, \<open>clientHeight\<close> that of
  \<open>document.documentElement\<close> (absent when there is no such element).
\<close>

record dropdown =
  shown :: bool
  items :: "dropdownItem list"
  footer :: "edgeSource option"
  header :: "edgeSource option"
  maxCount :: int
  rotate_nav :: bool
  placement :: "string option"
  el_className :: string
  el_style :: "(string \<times> string) list"
  el_dataStrategy :: "string option"
  el_children :: "child list"
  emitted :: "event list"
  idCounter :: nat
  clientHeight :: "int option"

record dropdownOptions =
  opt_className :: "string option"
  opt_footer :: "edgeSource option"
  opt_header :: "edgeSource option"
  opt_maxCount :: "int option"
  opt_placement :: "string option"
  opt_rotate :: "bool option"
  opt_style :: "(string \<times> string) list option"

definition DEFAULT_CLASS_NAME :: string where
  "DEFAULT_CLASS_NAME = ''dropdown-menu textcomplete-dropdown''"

fun style_set :: "string \<Rightarrow> string \<Rightarrow> (string \<times> string) list \<Rightarrow> (string \<times> string) list" where
  "style_set k v [] = [(k, v)]"
| "style_set k v ((k', v') # st) =
     (if k = k' then (k, v) # st else (k', v') # style_set k v st)"

definition createElement :: "(string \<times> string) list" where
  "createElement =
     style_set ''zIndex'' ''10000''
       (style_set ''position'' ''absolute'' (style_set ''display'' ''none'' []))"

text \<open>
  The constructor. \<open>a || b\<close> takes \<open>b\<close> when \<open>a\<close> is falsy: an absent option, the
  number 0, the empty string. The two last arguments are the environment.
\<close>

definition Dropdown :: "dropdownOptions \<Rightarrow> nat \<Rightarrow> int option \<Rightarrow> dropdown" where
  "Dropdown options c h =
     \<lparr>shown = False,
      items = [],
      footer = opt_footer options,
      header = opt_header options,
      maxCount = (case opt_maxCount options of
                    None \<Rightarrow> 10
                  | Some n \<Rightarrow> if n = 0 then 10 else n),
      rotate_nav = (case opt_rotate options of None \<Rightarrow> True | Some r \<Rightarrow> r),
      placement = opt_placement options,
      el_className = (case opt_className options of
                        None \<Rightarrow> DEFAULT_CLASS_NAME
                      | Some s \<Rightarrow> if s = [] then DEFAULT_CLASS_NAME else s),
      el_style = (case opt_style options of
                    None \<Rightarrow> createElement
                  | Some st \<Rightarrow> fold (\<lambda>(k, v). style_set k v) st createElement),
      el_dataStrategy = None,
      el_children = [],
      emitted = [],
      idCounter = c,
      clientHeight = h\<rparr>"

text \<open>
  Some names of the source are taken in Isabelle: \<open>show\<close> is \<open>show_dropdown\<close>,
  \<open>append\<close> is \<open>append_items\<close>, \<open>rotate\<close> is \<open>rotate_nav\<close>, the
  \<open>deactivate\<close> of the dropdown is \<open>deactivate_dropdown\<close>, and of an item
  \<open>id\<close> is \<open>item_id\<close>, \<open>_el\<close> is \<open>item_el\<close>, \<open>next\<close> and \<open>prev\<close> are
  \<open>next_item\<close> and \<open>prev_item\<close>. \<open>destroy\<close> of the dropdown (\<open>clear\<close>, then
  the element is dropped) is left out; the name \<open>destroy\<close> is that of the items.
\<close>

text \<open>What a call leaves behind: it returns, or it throws in the state reached so far.\<close>

datatype outcome = Returned dropdown | Threw jsError dropdown

definition emit :: "event \<Rightarrow> dropdown \<Rightarrow> dropdown" where
  "emit ev d = d\<lparr>emitted := emitted d @ [ev]\<rparr>"

definition getActiveItem :: "dropdown \<Rightarrow> dropdownItem option" where
  "getActiveItem d = find active (items d)"

text \<open>
  \<open>items.forEach(item => item.m())\<close> for a method \<open>m\<close> of the items: the items
  already visited keep what the method did to them, and the first throw ends the loop.
\<close>

fun forEach ::
  "(dropdownItem \<Rightarrow> jsError + dropdownItem) \<Rightarrow> dropdownItem list
     \<Rightarrow> jsError option \<times> dropdownItem list" where
  "forEach m [] = (None, [])"
| "forEach m (x # xs) =
     (case m x of
        Inl e \<Rightarrow> (Some e, x # xs)
      | Inr x' \<Rightarrow> (case forEach m xs of (r, xs') \<Rightarrow> (r, x' # xs')))"

definition clear :: "dropdown \<Rightarrow> outcome" where
  "clear d =
     (let d1 = d\<lparr>el_children := []\<rparr>
      in case forEach destroy (items d1) of
           (Some e, its) \<Rightarrow> Threw e (d1\<lparr>items := its\<rparr>)
         | (None, its) \<Rightarrow> Returned (d1\<lparr>items := []\<rparr>))"

definition show_dropdown :: "(event \<Rightarrow> bool) \<Rightarrow> dropdown \<Rightarrow> dropdown" where
  "show_dropdown L d =
     (if \<not> shown d then
        (let d1 = emit Show d
         in if L Show then d1
            else emit Shown (d1\<lparr>el_style := style_set ''display'' ''block'' (el_style d1),
                                shown := True\<rparr>))
      else d)"

definition hide :: "(event \<Rightarrow> bool) \<Rightarrow> dropdown \<Rightarrow> dropdown" where
  "hide L d =
     (if shown d then
        (let d1 = emit Hide d
         in if L Hide then d1
            else emit Hidden (d1\<lparr>el_style := style_set ''display'' ''none'' (el_style d1),
                                 shown := False\<rparr>))
      else d)"

text \<open>\<open>deactivate\<close> of the dropdown: \<open>this.hide().clear()\<close>.\<close>

definition deactivate_dropdown :: "(event \<Rightarrow> bool) \<Rightarrow> dropdown \<Rightarrow> outcome" where
  "deactivate_dropdown L d = clear (hide L d)"

definition select :: "(event \<Rightarrow> bool) \<Rightarrow> dropdownItem \<Rightarrow> dropdown \<Rightarrow> outcome" where
  "select L dropdownItem d =
     (let detail = searchResult dropdownItem;
          d1 = emit (Select detail) d
      in if L (Select detail) then Returned d1
         else case deactivate_dropdown L d1 of
                Threw e d2 \<Rightarrow> Threw e d2
              | Returned d2 \<Rightarrow> Returned (emit (Selected detail) d2))"





text \<open>
  \<open>append\<close>: each item is pushed, told so, and its element put into the fragment;
  the fragment then goes into the \<open>ul\<close>.
\<close>

definition append_one :: "dropdown \<times> child list \<Rightarrow> dropdownItem \<Rightarrow> dropdown \<times> child list" where
  "append_one s item =
     (case s of (d, fragment) \<Rightarrow>
        (let pushed = items d @ [item];
             item' = el (appended pushed item)
         in (d\<lparr>items := items d @ [item']\<rparr>, fragment @ [ItemLi (item_id item')])))"

definition append_items :: "dropdownItem list \<Rightarrow> dropdown \<Rightarrow> dropdown" where
  "append_items its d =
     (case foldl append_one (d, []) its of
        (d', fragment) \<Rightarrow> d'\<lparr>el_children := el_children d' @ fragment\<rparr>)"

definition isPlacementTop :: "dropdown \<Rightarrow> bool" where
  "isPlacementTop d = (placement d = Some ''top'')"

definition truthy_num :: "int option \<Rightarrow> bool" where
  "truthy_num x = (case x of None \<Rightarrow> False | Some n \<Rightarrow> n \<noteq> 0)"

definition setOffset :: "cursorOffset \<Rightarrow> dropdown \<Rightarrow> dropdown" where
  "setOffset co d =
     (let d1 = (if truthy_num (co_left co)
                then d\<lparr>el_style := style_set ''left'' (px (the (co_left co))) (el_style d)\<rparr>
                else if truthy_num (co_right co)
                then d\<lparr>el_style := style_set ''right'' (px (the (co_right co))) (el_style d)\<rparr>
                else d)
      in if isPlacementTop d1 then
           (case clientHeight d1 of
              Some h \<Rightarrow>
                d1\<lparr>el_style :=
                      style_set ''bottom'' (px (h - co_top co + co_lineHeight co)) (el_style d1)\<rparr>
            | None \<Rightarrow> d1)
         else d1\<lparr>el_style := style_set ''top'' (px (co_top co)) (el_style d1)\<rparr>)"

definition setStrategyId :: "searchResult option \<Rightarrow> dropdown \<Rightarrow> dropdown" where
  "setStrategyId sr d =
     (case (case sr of None \<Rightarrow> None | Some r \<Rightarrow> strategyId r) of
        Some s \<Rightarrow>
          (if s \<noteq> [] then d\<lparr>el_dataStrategy := Some s\<rparr> else d\<lparr>el_dataStrategy := None\<rparr>)
      | None \<Rightarrow> d\<lparr>el_dataStrategy := None\<rparr>)"

text \<open>The markup of a decoration: \<open>source(rawResults)\<close> for a function, else the string.\<close>

definition edge_content :: "edgeSource option \<Rightarrow> string list \<Rightarrow> string" where
  "edge_content source rawResults =
     (case source of
        None \<Rightarrow> []
      | Some (EdgeString s) \<Rightarrow> s
      | Some (EdgeFunction f) \<Rightarrow> f rawResults)"

definition renderEdge :: "string list \<Rightarrow> edgeType \<Rightarrow> dropdown \<Rightarrow> dropdown" where
  "renderEdge rawResults ty d =
     (let source = (case ty of Header \<Rightarrow> header d | Footer \<Rightarrow> footer d);
          content = edge_content source rawResults
      in d\<lparr>el_children := el_children d @ [EdgeLi ty content]\<rparr>)"

text \<open>\<open>searchResults.map(searchResult => new DropdownItem(searchResult))\<close>.\<close>

fun newItems :: "searchResult list \<Rightarrow> nat \<Rightarrow> dropdownItem list \<times> nat" where
  "newItems [] c = ([], c)"
| "newItems (sr # srs) c =
     (case DropdownItem sr c of (i, c1) \<Rightarrow>
        (case newItems srs c1 of (is, c2) \<Rightarrow> (i # is, c2)))"

text \<open>
  \<open>xs.slice(0, end)\<close> for an integer end: a negative end counts from the end of
  the array, and the result is never longer than the array.
\<close>

definition slice0 :: "int \<Rightarrow> 'a list \<Rightarrow> 'a list" where
  "slice0 stop xs =
     (let len = int (length xs);
          final = (if stop < 0 then max (len + stop) 0 else min stop len)
      in take (nat final) xs)"

definition first :: "'a list \<Rightarrow> 'a option" where
  "first xs = (case xs of [] \<Rightarrow> None | x # _ \<Rightarrow> Some x)"

definition render ::
  "(event \<Rightarrow> bool) \<Rightarrow> searchResult list \<Rightarrow> cursorOffset \<Rightarrow> dropdown \<Rightarrow> outcome" where
  "render L searchResults co d =
     (let d0 = emit Render d
      in if L Render then Returned d0
         else
           (let rawResults = map data searchResults;
                built = newItems
                          (slice0 (if maxCount d0 \<noteq> 0 then maxCount d0
                                   else int (length searchResults)) searchResults)
                          (idCounter d0);
                dropdownItems = fst built;
                d1 = d0\<lparr>idCounter := snd built\<rparr>
            in case clear d1 of
                 Threw e d2 \<Rightarrow> Threw e d2
               | Returned d2 \<Rightarrow>
                   (let d3 = setStrategyId (first searchResults) d2;
                        d4 = renderEdge rawResults Header d3;
                        d5 = append_items dropdownItems d4;
                        d6 = renderEdge rawResults Footer d5;
                        d7 = setOffset co d6;
                        d8 = show_dropdown L d7
                    in Returned (emit Rendered d8))))"

section \<open>Sample inputs\<close>

text \<open>
  A candidate whose payload and markup are the given text, listeners that cancel
  nothing (\<open>quiet\<close>) or exactly one event (\<open>veto\<close>), a cursor at the origin, the
  empty options, and the dropdown built from them.
\<close>

definition candidate :: "string \<Rightarrow> searchResult" where
  "candidate s = \<lparr>data = s, strategyId = Some ''mention'', rendered = s\<rparr>"

definition quiet :: "event \<Rightarrow> bool" where
  "quiet ev = False"

definition veto :: "event \<Rightarrow> event \<Rightarrow> bool" where
  "veto x ev = (ev = x)"

definition origin :: cursorOffset where
  "origin = \<lparr>co_left = None, co_right = None, co_top = 0, co_lineHeight = 0\<rparr>"

definition defaults :: dropdownOptions where
  "defaults =
     \<lparr>opt_className = None, opt_footer = None, opt_header = None, opt_maxCount = None,
      opt_placement = None, opt_rotate = None, opt_style = None\<rparr>"

definition fresh :: dropdown where
  "fresh = Dropdown defaults 0 None"

text \<open>The state a call leaves behind, whether it returned or threw.\<close>

definition state_of :: "outcome \<Rightarrow> dropdown" where
  "state_of r = (case r of Returned d \<Rightarrow> d | Threw e d \<Rightarrow> d)"

text \<open>\<open>raw => raw.length + " results"\<close>.\<close>

definition count_results :: "string list \<Rightarrow> string" where
  "count_results raw = toString (int (length raw)) @ '' results''"

text \<open>
  The dropdown after it was built from the options and rendered, with quiet listeners,
  the candidates of the given names.
\<close>

definition after_render :: "dropdownOptions \<Rightarrow> string list \<Rightarrow> dropdown" where
  "after_render opts names =
     state_of (render quiet (map candidate names) origin (Dropdown opts 0 None))"

text \<open>Batches of five and of eleven candidates.\<close>

definition five :: "searchResult list" where
  "five = map candidate [''a'', ''b'', ''c'', ''d'', ''e'']"

definition eleven :: "searchResult list" where
  "eleven = map candidate [''a'', ''b'', ''c'', ''d'', ''e'', ''f'', ''g'', ''h'', ''i'', ''j'', ''k'']"





text \<open>
  The items of the dropdown are attached: each one has its position in the collection
  as its index, which is what \<open>append\<close> gives them.
\<close>

definition attached :: "dropdown \<Rightarrow> bool" where
  "attached d = (map index (items d) = map (\<lambda>p. Some (int p)) [0..<length (items d)])"

text \<open>Options with \<open>maxCount = 2\<close> and the counting function as header and footer.\<close>

definition counting :: dropdownOptions where
  "counting = defaults\<lparr>opt_maxCount := Some 2,
     opt_header := Some (EdgeFunction count_results),
     opt_footer := Some (EdgeFunction count_results)\<rparr>"


section \<open>Facts about the operations\<close>

lemma forEach_destroy:
  "forEach destroy its = (None, map finalize its)"
  by (induction its) (simp_all add: destroy_def)

lemma clear_returns: "clear d = Returned (d\<lparr>el_children := [], items := []\<rparr>)"
  by (simp add: clear_def forEach_destroy)

lemma newItems_searchResult: "map searchResult (fst (newItems srs c)) = srs"
  by (induction srs arbitrary: c) (simp_all add: DropdownItem_def uniqueId_def case_prod_beta)

lemma newItems_active: "map active (fst (newItems srs c)) = replicate (length srs) False"
  by (induction srs arbitrary: c) (simp_all add: DropdownItem_def uniqueId_def case_prod_beta)

lemma newItems_length: "length (fst (newItems srs c)) = length srs"
  by (induction srs arbitrary: c) (simp_all add: DropdownItem_def uniqueId_def case_prod_beta)

lemma el_fields [simp]:
  "active (el i) = active i" "searchResult (el i) = searchResult i"
  "item_id (el i) = item_id i" "index (el i) = index i"
  by (simp_all add: el_def split: option.splits)

lemma activate_fields [simp]:
  "active (activate i) = True" "searchResult (activate i) = searchResult i"
  "item_id (activate i) = item_id i" "index (activate i) = index i"
  by (simp_all add: activate_def set_className_def Let_def)

lemma appended_fields [simp]:
  "active (appended sib i) = (active i \<or> length sib = 1)"
  "searchResult (appended sib i) = searchResult i"
  "item_id (appended sib i) = item_id i"
  "index (appended sib i) = Some (int (length sib) - 1)"
  by (auto simp add: appended_def Let_def)

lemma append_one_items:
  "items (fst (append_one (d, fr) x)) = items d @ [el (appended (items d @ [x]) x)]"
  by (simp add: append_one_def Let_def)

lemma append_one_frame:
  "fst (append_one (d, fr) x) = d\<lparr>items := items (fst (append_one (d, fr) x))\<rparr>"
  by (simp add: append_one_def Let_def)

lemma append_one_fragment:
  "snd (append_one (d, fr) x) = fr @ [ItemLi (item_id x)]"
  by (simp add: append_one_def Let_def)

lemma foldl_append_one_frame:
  "fst (foldl append_one (d, fr) its) = d\<lparr>items := items (fst (foldl append_one (d, fr) its))\<rparr>"
proof (induction its arbitrary: d fr)
  case Nil
  show ?case by simp
next
  case (Cons x xs)
  obtain d1 fr1 where s: "append_one (d, fr) x = (d1, fr1)" by (cases "append_one (d, fr) x")
  have d1: "d1 = d\<lparr>items := items d1\<rparr>" using append_one_frame [of d fr x] s by simp
  have "fst (foldl append_one (d1, fr1) xs) = d1\<lparr>items := items (fst (foldl append_one (d1, fr1) xs))\<rparr>"
    by (rule Cons.IH)
  also have "\<dots> = d\<lparr>items := items (fst (foldl append_one (d1, fr1) xs))\<rparr>"
    by (subst d1) simp
  finally show ?case by (simp add: s)
qed

lemma foldl_append_one_fragment:
  "snd (foldl append_one (d, fr) its) = fr @ map (\<lambda>i. ItemLi (item_id i)) its"
proof (induction its arbitrary: d fr)
  case Nil
  show ?case by simp
next
  case (Cons x xs)
  obtain d1 fr1 where s: "append_one (d, fr) x = (d1, fr1)" by (cases "append_one (d, fr) x")
  have "fr1 = fr @ [ItemLi (item_id x)]" using append_one_fragment [of d fr x] s by simp
  then show ?case using Cons.IH [of d1 fr1] by (simp add: s)
qed

lemma foldl_append_one_searchResult:
  "map searchResult (items (fst (foldl append_one (d, fr) its))) =
   map searchResult (items d) @ map searchResult its"
proof (induction its arbitrary: d fr)
  case Nil
  show ?case by simp
next
  case (Cons x xs)
  obtain d1 fr1 where s: "append_one (d, fr) x = (d1, fr1)" by (cases "append_one (d, fr) x")
  have "items d1 = items d @ [el (appended (items d @ [x]) x)]"
    using append_one_items [of d fr x] s by simp
  then show ?case using Cons.IH [of d1 fr1] by (simp add: s)
qed

lemma foldl_append_one_item_id:
  "map item_id (items (fst (foldl append_one (d, fr) its))) =
   map item_id (items d) @ map item_id its"
proof (induction its arbitrary: d fr)
  case Nil
  show ?case by simp
next
  case (Cons x xs)
  obtain d1 fr1 where s: "append_one (d, fr) x = (d1, fr1)" by (cases "append_one (d, fr) x")
  have "items d1 = items d @ [el (appended (items d @ [x]) x)]"
    using append_one_items [of d fr x] s by simp
  then show ?case using Cons.IH [of d1 fr1] by (simp add: s)
qed

lemma foldl_append_one_active_nonempty:
  "items d \<noteq> [] \<Longrightarrow>
   map active (items (fst (foldl append_one (d, fr) its))) =
   map active (items d) @ map active its"
proof (induction its arbitrary: d fr)
  case Nil
  show ?case by simp
next
  case (Cons x xs)
  obtain d1 fr1 where s: "append_one (d, fr) x = (d1, fr1)" by (cases "append_one (d, fr) x")
  have i1: "items d1 = items d @ [el (appended (items d @ [x]) x)]"
    using append_one_items [of d fr x] s by simp
  then have "items d1 \<noteq> []" by simp
  from Cons.IH [OF this, of fr1] i1 Cons.prems show ?case by (simp add: s)
qed

lemma foldl_append_one_active_empty:
  "items d = [] \<Longrightarrow>
   map active (items (fst (foldl append_one (d, fr) (x # xs)))) = True # map active xs"
proof -
  assume e: "items d = []"
  obtain d1 fr1 where s: "append_one (d, fr) x = (d1, fr1)" by (cases "append_one (d, fr) x")
  have i1: "items d1 = [el (appended [x] x)]"
    using append_one_items [of d fr x] s e by simp
  then have "items d1 \<noteq> []" by simp
  from foldl_append_one_active_nonempty [OF this, of fr1 xs] i1 show ?thesis by (simp add: s)
qed

lemma emit_fields [simp]:
  "items (emit ev d) = items d" "el_children (emit ev d) = el_children d"
  "header (emit ev d) = header d" "footer (emit ev d) = footer d"
  "shown (emit ev d) = shown d" "maxCount (emit ev d) = maxCount d"
  "emitted (emit ev d) = emitted d @ [ev]"
  by (simp_all add: emit_def)

lemma setStrategyId_fields [simp]:
  "items (setStrategyId sr d) = items d" "el_children (setStrategyId sr d) = el_children d"
  "header (setStrategyId sr d) = header d" "footer (setStrategyId sr d) = footer d"
  by (simp_all add: setStrategyId_def split: option.splits)

lemma renderEdge_fields [simp]:
  "items (renderEdge raw ty d) = items d"
  "header (renderEdge raw ty d) = header d" "footer (renderEdge raw ty d) = footer d"
  "el_children (renderEdge raw Header d) = el_children d @ [EdgeLi Header (edge_content (header d) raw)]"
  "el_children (renderEdge raw Footer d) = el_children d @ [EdgeLi Footer (edge_content (footer d) raw)]"
  by (simp_all add: renderEdge_def Let_def)

lemma setOffset_fields [simp]:
  "items (setOffset co d) = items d" "el_children (setOffset co d) = el_children d"
  by (simp_all add: setOffset_def Let_def split: option.splits)

lemma show_dropdown_fields [simp]:
  "items (show_dropdown L d) = items d" "el_children (show_dropdown L d) = el_children d"
  by (simp_all add: show_dropdown_def Let_def emit_def)

lemma append_items_items:
  "items (append_items its d) = items (fst (foldl append_one (d, []) its))"
  by (simp add: append_items_def case_prod_beta)

lemma append_items_fields [simp]:
  "header (append_items its d) = header d" "footer (append_items its d) = footer d"
  "el_children (append_items its d) = el_children d @ map (\<lambda>i. ItemLi (item_id i)) its"
proof -
  let ?F = "foldl append_one (d, []) its"
  have fr: "fst ?F = d\<lparr>items := items (fst ?F)\<rparr>" by (rule foldl_append_one_frame)
  have h: "header (fst ?F) = header d" by (subst fr) simp
  have f: "footer (fst ?F) = footer d" by (subst fr) simp
  have c: "el_children (fst ?F) = el_children d" by (subst fr) simp
  show "header (append_items its d) = header d" by (simp add: append_items_def case_prod_beta h)
  show "footer (append_items its d) = footer d" by (simp add: append_items_def case_prod_beta f)
  show "el_children (append_items its d) = el_children d @ map (\<lambda>i. ItemLi (item_id i)) its"
    by (simp add: append_items_def case_prod_beta c foldl_append_one_fragment)
qed

lemma append_items_searchResult:
  "items d = [] \<Longrightarrow> map searchResult (items (append_items its d)) = map searchResult its"
  by (simp add: append_items_items foldl_append_one_searchResult)

lemma append_items_item_id:
  "items d = [] \<Longrightarrow> map item_id (items (append_items its d)) = map item_id its"
  by (simp add: append_items_items foldl_append_one_item_id)

lemma append_items_active:
  "items d = [] \<Longrightarrow>
   map active (items (append_items its d)) =
   (case its of [] \<Rightarrow> [] | x # xs \<Rightarrow> True # map active xs)"
proof (cases its)
  case Nil
  assume "items d = []"
  then show ?thesis by (simp add: Nil append_items_items)
next
  case (Cons x xs)
  assume "items d = []"
  then show ?thesis
    by (simp only: Cons append_items_items foldl_append_one_active_empty list.case)
qed



lemma foldl_append_one_index:
  "map index (items (fst (foldl append_one (d, fr) its))) =
   map index (items d)
   @ map (\<lambda>p. Some (int p)) [length (items d)..<length (items d) + length its]"
proof (induction its arbitrary: d fr)
  case Nil
  show ?case by simp
next
  case (Cons x xs)
  obtain d1 fr1 where s: "append_one (d, fr) x = (d1, fr1)" by (cases "append_one (d, fr) x")
  have i1: "items d1 = items d @ [el (appended (items d @ [x]) x)]"
    using append_one_items [of d fr x] s by simp
  have l1: "length (items d1) = Suc (length (items d))" by (simp add: i1)
  have x1: "map index (items d1) = map index (items d) @ [Some (int (length (items d)))]"
    by (simp add: i1)
  have u: "[length (items d)..<length (items d) + length (x # xs)] =
      length (items d) # [Suc (length (items d))..<Suc (length (items d)) + length xs]"
    by (subst upt_conv_Cons) simp_all
  have "map index (items (fst (foldl append_one (d, fr) (x # xs)))) =
      map index (items (fst (foldl append_one (d1, fr1) xs)))"
    by (simp add: s)
  also have "\<dots> = map index (items d1)
      @ map (\<lambda>p. Some (int p)) [length (items d1)..<length (items d1) + length xs]"
    by (rule Cons.IH)
  also have "\<dots> = map index (items d)
      @ map (\<lambda>p. Some (int p)) [length (items d)..<length (items d) + length (x # xs)]"
    by (simp only: l1 x1 u) simp
  finally show ?case .
qed

lemma more_fields [simp]:
  "rotate_nav (emit ev d) = rotate_nav d"
  "rotate_nav (setStrategyId sr d) = rotate_nav d" "maxCount (setStrategyId sr d) = maxCount d"
  "shown (setStrategyId sr d) = shown d"
  "rotate_nav (renderEdge raw ty d) = rotate_nav d" "maxCount (renderEdge raw ty d) = maxCount d"
  "shown (renderEdge raw ty d) = shown d"
  "rotate_nav (setOffset co d) = rotate_nav d" "maxCount (setOffset co d) = maxCount d"
  "shown (setOffset co d) = shown d"
  "rotate_nav (show_dropdown L d) = rotate_nav d" "maxCount (show_dropdown L d) = maxCount d"
  "shown (show_dropdown L d) = (shown d \<or> \<not> L Show)"
  "header (setOffset co d) = header d" "footer (setOffset co d) = footer d"
  "header (show_dropdown L d) = header d" "footer (show_dropdown L d) = footer d"
  by (auto simp add: emit_def setStrategyId_def renderEdge_def setOffset_def show_dropdown_def
        Let_def split: option.splits)

lemma append_items_more_fields [simp]:
  "rotate_nav (append_items its d) = rotate_nav d" "maxCount (append_items its d) = maxCount d"
  "shown (append_items its d) = shown d"
proof -
  let ?F = "foldl append_one (d, []) its"
  have fr: "fst ?F = d\<lparr>items := items (fst ?F)\<rparr>" by (rule foldl_append_one_frame)
  have r: "rotate_nav (fst ?F) = rotate_nav d" by (subst fr) simp
  have m: "maxCount (fst ?F) = maxCount d" by (subst fr) simp
  have h: "shown (fst ?F) = shown d" by (subst fr) simp
  show "rotate_nav (append_items its d) = rotate_nav d"
    by (simp add: append_items_def case_prod_beta r)
  show "maxCount (append_items its d) = maxCount d"
    by (simp add: append_items_def case_prod_beta m)
  show "shown (append_items its d) = shown d"
    by (simp add: append_items_def case_prod_beta h)
qed

lemma append_items_index:
  "items d = [] \<Longrightarrow>
   map index (items (append_items its d)) = map (\<lambda>p. Some (int p)) [0..<length its]"
  by (simp add: append_items_items foldl_append_one_index)

lemma append_items_length:
  "items d = [] \<Longrightarrow> length (items (append_items its d)) = length its"
  using arg_cong [OF append_items_item_id, of d length its] by simp

lemma render_returns:
  assumes "\<not> L Render"
  shows "\<exists>d'. render L srs co d = Returned d'
           \<and> map searchResult (items d') =
               slice0 (if maxCount d \<noteq> 0 then maxCount d else int (length srs)) srs
           \<and> map active (items d') =
               (case slice0 (if maxCount d \<noteq> 0 then maxCount d else int (length srs)) srs of
                  [] \<Rightarrow> [] | x # xs \<Rightarrow> True # replicate (length xs) False)
           \<and> el_children d' =
               EdgeLi Header (edge_content (header d) (map data srs))
               # map (\<lambda>i. ItemLi (item_id i)) (items d')
               @ [EdgeLi Footer (edge_content (footer d) (map data srs))]
           \<and> attached d' \<and> rotate_nav d' = rotate_nav d \<and> maxCount d' = maxCount d
           \<and> shown d' = (shown d \<or> \<not> L Show)
           \<and> header d' = header d \<and> footer d' = footer d"
proof -
  define kept where
    "kept = slice0 (if maxCount d \<noteq> 0 then maxCount d else int (length srs)) srs"
  define built where "built = newItems kept (idCounter (emit Render d))"
  define d4 where "d4 = renderEdge (map data srs) Header
      (setStrategyId (first srs)
         (emit Render d\<lparr>idCounter := snd built, el_children := [], items := []\<rparr>))"
  define d' where "d' = emit Rendered (show_dropdown L (setOffset co
      (renderEdge (map data srs) Footer (append_items (fst built) d4))))"
  have r: "render L srs co d = Returned d'"
    using assms by (simp add: render_def Let_def clear_returns d'_def d4_def built_def kept_def)
  have e4: "items d4 = []" by (simp add: d4_def)
  have c4: "el_children d4 = [EdgeLi Header (edge_content (header d) (map data srs))]"
    by (simp add: d4_def)
  have f4: "footer d4 = footer d" by (simp add: d4_def)
  have sr: "map searchResult (items d') = kept"
    by (simp add: d'_def append_items_searchResult [OF e4] built_def newItems_searchResult)
  have ac: "map active (items d') =
      (case kept of [] \<Rightarrow> [] | x # xs \<Rightarrow> True # replicate (length xs) False)"
  proof -
    have "map active (items d') =
        (case fst built of [] \<Rightarrow> [] | x # xs \<Rightarrow> True # map active xs)"
      by (simp add: d'_def append_items_active [OF e4])
    moreover have "map active (fst built) = replicate (length kept) False"
      by (simp only: built_def newItems_active)
    moreover have "length (fst built) = length kept"
      by (simp only: built_def newItems_length)
    ultimately show ?thesis
      by (cases "fst built"; cases kept) auto
  qed
  have ids: "map item_id (items d') = map item_id (fst built)"
    by (simp add: d'_def append_items_item_id [OF e4])
  have ch: "el_children d' =
      EdgeLi Header (edge_content (header d) (map data srs))
      # map (\<lambda>i. ItemLi (item_id i)) (items d')
      @ [EdgeLi Footer (edge_content (footer d) (map data srs))]"
  proof -
    have "map (\<lambda>i. ItemLi (item_id i)) (items d') = map ItemLi (map item_id (items d'))"
      by (simp add: comp_def)
    also have "\<dots> = map (\<lambda>i. ItemLi (item_id i)) (fst built)"
      by (simp only: ids) (simp add: comp_def)
    finally show ?thesis by (simp add: d'_def c4 f4)
  qed
  have at: "attached d'"
    by (simp add: attached_def d'_def append_items_index [OF e4] append_items_length [OF e4])
  have ro: "rotate_nav d' = rotate_nav d" by (simp add: d'_def d4_def)
  have ma: "maxCount d' = maxCount d" by (simp add: d'_def d4_def)
  have sh: "shown d' = (shown d \<or> \<not> L Show)" by (simp add: d'_def d4_def)
  have he: "header d' = header d" by (simp add: d'_def d4_def)
  have fo: "footer d' = footer d" by (simp add: d'_def d4_def)
  from r sr ac ch at ro ma sh he fo show ?thesis unfolding kept_def by blast
qed

lemma deactivate_fields [simp]:
  "active (deactivate i) = False" "searchResult (deactivate i) = searchResult i"
  "item_id (deactivate i) = item_id i" "index (deactivate i) = index i"
  by (simp_all add: deactivate_def set_className_def Let_def)








lemma activate_item_length [simp]: "length (activate_item k its) = length its"
  by (simp add: activate_item_def Let_def split: option.splits)

lemma activate_item_index [simp]: "map index (activate_item k its) = map index its"
proof -
  have u: "\<And>xs j y. index y = index (xs ! j) \<Longrightarrow> map index (xs[j := y]) = map index xs"
    by (metis list_update_id map_update)
  show ?thesis
    by (auto simp add: activate_item_def Let_def u split: option.splits)
qed

lemma activate_item_searchResult [simp]:
  "map searchResult (activate_item k its) = map searchResult its"
proof -
  have u: "\<And>xs j y. searchResult y = searchResult (xs ! j) \<Longrightarrow>
      map searchResult (xs[j := y]) = map searchResult xs"
    by (metis list_update_id map_update)
  show ?thesis
    by (auto simp add: activate_item_def Let_def u split: option.splits)
qed








lemma select_returns:
  "select L i d =
   Returned (if L (Select (searchResult i)) then emit (Select (searchResult i)) d
             else emit (Selected (searchResult i))
                    ((hide L (emit (Select (searchResult i)) d))\<lparr>el_children := [], items := []\<rparr>))"
  by (simp add: select_def Let_def deactivate_dropdown_def clear_returns)

lemma hide_items [simp]: "items (hide L d) = items d"
  by (simp add: hide_def Let_def emit_def)










lemma slice0_positive: "0 < m \<Longrightarrow> slice0 m xs = take (nat m) xs"
  by (simp add: slice0_def Let_def min_def)

lemma slice0_all: "slice0 (int (length xs)) xs = xs"
  by (simp add: slice0_def Let_def)






lemma after_render_edges:
  "header (after_render opts names) = opt_header opts
   \<and> footer (after_render opts names) = opt_footer opts"
proof -
  have q: "\<not> quiet Render" by (simp add: quiet_def)
  from render_returns [where L = quiet and srs = "map candidate names" and co = origin
                         and d = "Dropdown opts 0 None", OF q]
  obtain d' where "render quiet (map candidate names) origin (Dropdown opts 0 None) = Returned d'"
    and "header d' = header (Dropdown opts 0 None)"
    and "footer d' = footer (Dropdown opts 0 None)"
    by blast
  then show ?thesis by (simp add: after_render_def state_of_def Dropdown_def)
qed

section \<open>The claims of the specification\<close>












text \<open>
  C6. If a listener cancels the \<open>render\<close> event, \<open>render\<close> returns the dropdown it
  was given, with that one event added to the emitted ones and nothing else changed:
  the items, the active item and the visibility are those before the call, and no
  later step (clearing, building, showing, \<open>rendered\<close>) has run.
\<close>

theorem C6_canceled_render_changes_nothing:
  assumes "L Render"
  shows "render L srs co d = Returned (d\<lparr>emitted := emitted d @ [Render]\<rparr>)
         \<and> items (d\<lparr>emitted := emitted d @ [Render]\<rparr>) = items d
         \<and> getActiveItem (d\<lparr>emitted := emitted d @ [Render]\<rparr>) = getActiveItem d
         \<and> shown (d\<lparr>emitted := emitted d @ [Render]\<rparr>) = shown d"
  using assms by (simp add: render_def Let_def emit_def getActiveItem_def)

theorem C6_canceled_render_changes_nothing_witness:
  "veto Render Render
   \<and> render (veto Render) [candidate ''C''] origin (after_render defaults [''A'', ''B''])
       = Returned ((after_render defaults [''A'', ''B''])
                    \<lparr>emitted := emitted (after_render defaults [''A'', ''B'']) @ [Render]\<rparr>)
   \<and> map (\<lambda>i. data (searchResult i)) (items (after_render defaults [''A'', ''B''])) = [''A'', ''B'']
   \<and> shown (after_render defaults [''A'', ''B''])"
proof -
  have v: "veto Render Render" by (simp add: veto_def)
  have e: "map (\<lambda>i. data (searchResult i)) (items (after_render defaults [''A'', ''B''])) = [''A'', ''B'']
      \<and> shown (after_render defaults [''A'', ''B''])"
    by code_simp
  from C6_canceled_render_changes_nothing
         [where L = "veto Render" and srs = "[candidate ''C'']" and co = origin
            and d = "after_render defaults [''A'', ''B'']", OF v] v e
  show ?thesis by blast
qed

text \<open>
  C7. If a listener cancels the \<open>select\<close> event, \<open>select\<close> returns the dropdown
  it was given with that one event added to the emitted ones: it is shown as before,
  its items and its active item are the same, and no \<open>selected\<close> is emitted. If no
  listener cancels it, \<open>select\<close> returns with the collection empty, and the events
  emitted are \<open>select\<close>, those of \<open>hide\<close>, and last \<open>selected\<close> with the
  candidate that \<open>select\<close> carried.
\<close>

theorem C7_select_canceled_or_completed:
  "(L (Select (searchResult i)) \<longrightarrow>
      select L i d = Returned (d\<lparr>emitted := emitted d @ [Select (searchResult i)]\<rparr>))
   \<and> (\<not> L (Select (searchResult i)) \<longrightarrow>
        (\<exists>d'. select L i d = Returned d'
           \<and> items d' = []
           \<and> emitted d' =
               emitted d @ [Select (searchResult i)]
               @ (if shown d then (if L Hide then [Hide] else [Hide, Hidden]) else [])
               @ [Selected (searchResult i)]))"
  by (simp add: select_returns emit_def hide_def Let_def)

theorem C7_select_canceled_or_completed_witness:
  "veto (Select (candidate ''A'')) (Select (searchResult (items (after_render defaults [''A'']) ! 0)))
   \<and> select (veto (Select (candidate ''A''))) (items (after_render defaults [''A'']) ! 0)
        (after_render defaults [''A''])
       = Returned ((after_render defaults [''A''])
           \<lparr>emitted := emitted (after_render defaults [''A''])
                         @ [Select (searchResult (items (after_render defaults [''A'']) ! 0))]\<rparr>)
   \<and> \<not> quiet (Select (searchResult (items (after_render defaults [''A'']) ! 0)))
   \<and> (\<exists>d'. select quiet (items (after_render defaults [''A'']) ! 0) (after_render defaults [''A''])
              = Returned d'
         \<and> items d' = []
         \<and> emitted d' =
             [Render, Show, Shown, Rendered, Select (candidate ''A''), Hide, Hidden,
              Selected (candidate ''A'')])"
proof -
  let ?d = "after_render defaults [''A'']"
  let ?i = "items ?d ! 0"
  have s: "searchResult ?i = candidate ''A''" by code_simp
  have e: "emitted ?d = [Render, Show, Shown, Rendered] \<and> shown ?d" by code_simp
  have v: "veto (Select (candidate ''A'')) (Select (searchResult ?i))" by (simp add: s veto_def)
  have q: "\<not> quiet (Select (searchResult ?i))" "\<not> quiet Hide" by (simp_all add: quiet_def)
  from C7_select_canceled_or_completed [of "veto (Select (candidate ''A''))" ?i ?d]
       C7_select_canceled_or_completed [of quiet ?i ?d] v q e
  show ?thesis by (simp add: s)
qed

text \<open>
  C8. In a \<open>select\<close> that is not canceled, if a listener cancels \<open>hide\<close>, the
  visibility is what it was, \<open>hidden\<close> is not emitted, and the collection is
  empty all the same when \<open>select\<close> returns.
\<close>

theorem C8_hide_canceled_items_still_cleared:
  assumes "\<not> L (Select (searchResult i))" and "L Hide"
  shows "\<exists>d'. select L i d = Returned d'
           \<and> shown d' = shown d
           \<and> items d' = []
           \<and> emitted d' =
               emitted d @ [Select (searchResult i)] @ (if shown d then [Hide] else [])
               @ [Selected (searchResult i)]"
  using assms by (simp add: select_returns emit_def hide_def Let_def)

theorem C8_hide_canceled_items_still_cleared_witness:
  "\<not> veto Hide (Select (searchResult (items (after_render defaults [''A'', ''B'']) ! 1)))
   \<and> veto Hide Hide
   \<and> shown (after_render defaults [''A'', ''B''])
   \<and> length (items (after_render defaults [''A'', ''B''])) = 2
   \<and> (\<exists>d'. select (veto Hide) (items (after_render defaults [''A'', ''B'']) ! 1)
              (after_render defaults [''A'', ''B'']) = Returned d'
         \<and> shown d'
         \<and> items d' = []
         \<and> emitted d' =
             [Render, Show, Shown, Rendered, Select (candidate ''B''), Hide,
              Selected (candidate ''B'')])"
proof -
  let ?d = "after_render defaults [''A'', ''B'']"
  let ?i = "items ?d ! 1"
  have s: "searchResult ?i = candidate ''B''" by code_simp
  have e: "emitted ?d = [Render, Show, Shown, Rendered] \<and> shown ?d \<and> length (items ?d) = 2"
    by code_simp
  have v: "\<not> veto Hide (Select (searchResult ?i))" "veto Hide Hide" by (simp_all add: veto_def)
  from C8_hide_canceled_items_still_cleared [where L = "veto Hide" and i = ?i and d = ?d, OF v]
       v e s
  show ?thesis by simp
qed

text \<open>
  C9. The header and the footer are built from the full batch of raw payloads, not
  from the truncated one. For every dropdown, with or without items, whose header and
  footer are functions \<open>f\<close> and \<open>g\<close>, a \<open>render\<close> that is not canceled returns,
  and the children of the element are then the header with the markup \<open>f\<close> gives for
  the raw payloads of all candidates, the elements of the items, and the footer with
  the markup \<open>g\<close> gives for the raw payloads of all candidates, while the items are
  those of the slice: \<open>maxCount\<close> of them when \<open>maxCount\<close> is positive and less
  than the number of candidates.
\<close>

theorem C9_edges_are_built_from_the_full_batch:
  assumes "\<not> L Render"
    and "header d = Some (EdgeFunction f)"
    and "footer d = Some (EdgeFunction g)"
  shows "\<exists>d'. render L srs co d = Returned d'
           \<and> el_children d' =
               EdgeLi Header (f (map data srs))
               # map (\<lambda>i. ItemLi (item_id i)) (items d')
               @ [EdgeLi Footer (g (map data srs))]
           \<and> length (map data srs) = length srs
           \<and> map searchResult (items d') =
               slice0 (if maxCount d \<noteq> 0 then maxCount d else int (length srs)) srs
           \<and> (0 < maxCount d \<and> maxCount d < int (length srs) \<longrightarrow>
                 int (length (items d')) = maxCount d)"
proof -
  from render_returns [where L = L and srs = srs and co = co and d = d, OF assms(1)]
  obtain d' where r: "render L srs co d = Returned d'"
    and s: "map searchResult (items d') =
      slice0 (if maxCount d \<noteq> 0 then maxCount d else int (length srs)) srs"
    and c: "el_children d' =
      EdgeLi Header (edge_content (header d) (map data srs))
      # map (\<lambda>i. ItemLi (item_id i)) (items d')
      @ [EdgeLi Footer (edge_content (footer d) (map data srs))]"
    by blast
  have c': "el_children d' =
      EdgeLi Header (f (map data srs))
      # map (\<lambda>i. ItemLi (item_id i)) (items d')
      @ [EdgeLi Footer (g (map data srs))]"
    using c assms(2,3) by (simp add: edge_content_def)
  have l: "int (length (items d')) = maxCount d"
    if m: "0 < maxCount d \<and> maxCount d < int (length srs)"
  proof -
    from s m have "map searchResult (items d') = take (nat (maxCount d)) srs"
      by (simp add: slice0_positive)
    from arg_cong [OF this, of length]
    have "length (items d') = min (length srs) (nat (maxCount d))" by simp
    with m show ?thesis by linarith
  qed
  have n: "length (map data srs) = length srs" by simp
  from l have l': "0 < maxCount d \<and> maxCount d < int (length srs) \<longrightarrow>
      int (length (items d')) = maxCount d" by blast
  show ?thesis by (intro exI [of _ d'] conjI) (fact r c' n s l')+
qed

text \<open>
  The scenario of the specification, on a dropdown that already shows items: five
  candidates, \<open>maxCount = 2\<close>, the header \<open>raw => raw.length + " results"\<close>.
\<close>

theorem C9_edges_are_built_from_the_full_batch_witness:
  "\<not> quiet Render
   \<and> header (after_render counting [''x'', ''y'', ''z'']) = Some (EdgeFunction count_results)
   \<and> footer (after_render counting [''x'', ''y'', ''z'']) = Some (EdgeFunction count_results)
   \<and> length (items (after_render counting [''x'', ''y'', ''z''])) = 2
   \<and> 0 < maxCount (after_render counting [''x'', ''y'', ''z''])
   \<and> maxCount (after_render counting [''x'', ''y'', ''z'']) < int (length five)
   \<and> (\<exists>d'. render quiet five origin (after_render counting [''x'', ''y'', ''z'']) = Returned d'
         \<and> el_children d' =
             EdgeLi Header ''5 results''
             # map (\<lambda>i. ItemLi (item_id i)) (items d')
             @ [EdgeLi Footer ''5 results'']
         \<and> int (length (items d')) = 2)"
proof -
  let ?d = "after_render counting [''x'', ''y'', ''z'']"
  have q: "\<not> quiet Render" by (simp add: quiet_def)
  have h: "header ?d = Some (EdgeFunction count_results)"
    by (simp add: after_render_edges counting_def defaults_def)
  have f: "footer ?d = Some (EdgeFunction count_results)"
    by (simp add: after_render_edges counting_def defaults_def)
  have e: "length (items ?d) = 2 \<and> maxCount ?d = 2" by code_simp
  have l: "length five = 5" by (simp add: five_def)
  have raw: "count_results (map data five) = ''5 results''" by code_simp
  from C9_edges_are_built_from_the_full_batch
         [where L = quiet and d = ?d and f = count_results and g = count_results
            and srs = five and co = origin, OF q h f] q h f e l
  show ?thesis by (auto simp add: raw)
qed

text \<open>
  C10. A dropdown built with a falsy \<open>maxCount\<close> option (absent, or 0) has
  \<open>maxCount = 10\<close>, so its first render that is not canceled keeps the first ten
  candidates; and when \<open>maxCount\<close> is 0 at the time of a render on a dropdown
  without items, all candidates become items.
\<close>

theorem C10_falsy_maxCount_becomes_ten:
  assumes "opt_maxCount options = None \<or> opt_maxCount options = Some 0"
    and "\<not> L Render"
    and "maxCount d = 0"
    and "items d = []"
  shows "maxCount (Dropdown options c h) = 10
         \<and> (\<exists>d'. render L srs co (Dropdown options c h) = Returned d'
               \<and> map searchResult (items d') = take 10 srs
               \<and> length (items d') = min 10 (length srs))
         \<and> (\<exists>d'. render L srs co d = Returned d'
               \<and> map searchResult (items d') = srs
               \<and> length (items d') = length srs)"
proof -
  have m: "maxCount (Dropdown options c h) = 10"
    using assms(1) by (auto simp add: Dropdown_def)
  from render_returns [where L = L and d = "Dropdown options c h" and srs = srs and co = co,
                       OF assms(2)]
  obtain d1 where r1: "render L srs co (Dropdown options c h) = Returned d1"
    and s1: "map searchResult (items d1) = take 10 srs"
    by (auto simp add: m slice0_positive)
  have l1: "length (items d1) = min 10 (length srs)"
    using arg_cong [OF s1, of length] by simp
  from render_returns [where L = L and d = d and srs = srs and co = co, OF assms(2)]
  obtain d2 where r2: "render L srs co d = Returned d2"
    and s2: "map searchResult (items d2) = srs"
    by (auto simp add: assms(3) slice0_all)
  have l2: "length (items d2) = length srs"
    using arg_cong [OF s2, of length] by simp
  from m r1 s1 l1 r2 s2 l2 show ?thesis by blast
qed

theorem C10_falsy_maxCount_becomes_ten_witness:
  "(opt_maxCount (defaults\<lparr>opt_maxCount := Some 0\<rparr>) = None
      \<or> opt_maxCount (defaults\<lparr>opt_maxCount := Some 0\<rparr>) = Some 0)
   \<and> \<not> quiet Render
   \<and> maxCount (fresh\<lparr>maxCount := 0\<rparr>) = 0
   \<and> items (fresh\<lparr>maxCount := 0\<rparr>) = []
   \<and> maxCount (Dropdown (defaults\<lparr>opt_maxCount := Some 0\<rparr>) 0 None) = 10
   \<and> (\<exists>d'. render quiet eleven origin (Dropdown (defaults\<lparr>opt_maxCount := Some 0\<rparr>) 0 None)
              = Returned d'
         \<and> map searchResult (items d') = take 10 eleven
         \<and> length (items d') = 10)
   \<and> (\<exists>d'. render quiet eleven origin (fresh\<lparr>maxCount := 0\<rparr>) = Returned d'
         \<and> map searchResult (items d') = eleven
         \<and> length (items d') = 11)"
proof -
  have a: "opt_maxCount (defaults\<lparr>opt_maxCount := Some 0\<rparr>) = None
      \<or> opt_maxCount (defaults\<lparr>opt_maxCount := Some 0\<rparr>) = Some 0" by simp
  have q: "\<not> quiet Render" by (simp add: quiet_def)
  have z: "maxCount (fresh\<lparr>maxCount := 0\<rparr>) = 0" by simp
  have i: "items (fresh\<lparr>maxCount := 0\<rparr>) = []" by (simp add: fresh_def Dropdown_def)
  have l: "length eleven = 11" by (simp add: eleven_def)
  from C10_falsy_maxCount_becomes_ten
         [where options = "defaults\<lparr>opt_maxCount := Some 0\<rparr>" and L = quiet
            and d = "fresh\<lparr>maxCount := 0\<rparr>" and c = 0 and h = None
            and srs = eleven and co = origin, OF a q z i] a q z i
  show ?thesis by (simp add: l)
qed

end
